theory Spec2Isabelle
  imports Main
begin

section \<open>Result tables of pygenprop (results.py)\<close>

text \<open>
  The assignment results are Python strings (\<open>'YES'\<close>, \<open>'NO'\<close>, \<open>'PARTIAL'\<close>).  A cell of a
  pandas table holds such a string or is missing (\<open>NaN\<close>, written \<open>None\<close> here): the outer join
  of \<open>pd.concat(..., axis=1)\<close> leaves a cell missing where a sample's table has no such row.
\<close>

type_synonym assignment = string
type_synonym cell = "string option"

datatype error = KeyError | ValueError | IndexError

text \<open>
  A data frame is stored by rows: the column labels, and for each row its label and its cells.
  The transposed frame is the same data stored by columns.  Row order is kept as a list, but no
  statement below depends on it.
\<close>

record 'k dataframe =
  columns :: "string list"
  rows :: "('k \<times> cell list) list"

record 'k transposed =
  t_index :: "string list"
  t_columns :: "('k \<times> cell list) list"

definition transpose :: "'k dataframe \<Rightarrow> 'k transposed" where
  "transpose df = \<lparr>t_index = columns df, t_columns = rows df\<rparr>"

definition transpose_back :: "'k transposed \<Rightarrow> 'k dataframe" where
  "transpose_back tf = \<lparr>columns = t_index tf, rows = t_columns tf\<rparr>"

text \<open>\<open>pd.Series.nunique\<close>: the number of distinct values, missing cells not counted.\<close>

definition nunique :: "cell list \<Rightarrow> nat" where
  "nunique s = length (remdups (filter (\<lambda>c. c \<noteq> None) s))"

text \<open>\<open>pd.Series.unique\<close>: the distinct values in order of first appearance, \<open>NaN\<close> included.\<close>

fun unique_from :: "cell list \<Rightarrow> cell list \<Rightarrow> cell list" where
  "unique_from seen [] = []"
| "unique_from seen (c # cs) =
     (if c \<in> set seen then unique_from seen cs else c # unique_from (c # seen) cs)"

definition unique :: "cell list \<Rightarrow> cell list" where
  "unique s = unique_from [] s"

text \<open>\<open>frame.drop(labels, axis=1)\<close>: a label that is no column raises \<open>KeyError\<close>.\<close>

definition drop_columns :: "'k list \<Rightarrow> 'k transposed \<Rightarrow> error + 'k transposed" where
  "drop_columns labels tf =
     (if \<exists>l \<in> set labels. l \<notin> fst ` set (t_columns tf) then Inl KeyError
      else Inr (tf\<lparr>t_columns := filter (\<lambda>(k, s). k \<notin> set labels) (t_columns tf)\<rparr>))"

text \<open>
  The list comprehension of \<open>remove_results_with_shared_assignments\<close> for
  \<open>only_drop_no_assignments\<close>:
  \<^verbatim>\<open>[column for column in single_value_columns
      if results_transposed[column].unique()[0] == 'NO']\<close>
\<close>

fun no_columns :: "'k transposed \<Rightarrow> 'k list \<Rightarrow> error + 'k list" where
  "no_columns tf [] = Inr []"
| "no_columns tf (column # rest) =
     (case map_of (t_columns tf) column of
        None \<Rightarrow> Inl KeyError
      | Some s \<Rightarrow>
          (case unique s of
             [] \<Rightarrow> Inl IndexError
           | v # _ \<Rightarrow>
               (case no_columns tf rest of
                  Inl e \<Rightarrow> Inl e
                | Inr ds \<Rightarrow> Inr (if v = Some ''NO'' then column # ds else ds))))"

definition remove_results_with_shared_assignments ::
    "'k dataframe \<Rightarrow> bool \<Rightarrow> error + 'k dataframe" where
  "remove_results_with_shared_assignments results only_drop_no_assignments =
     (let results_transposed = transpose results;
          number_of_unique_values_per_column =
            map (\<lambda>(k, s). (k, nunique s)) (t_columns results_transposed);
          single_value_columns =
            map fst (filter (\<lambda>(k, n). n = 1) number_of_unique_values_per_column)
      in case (if only_drop_no_assignments
               then no_columns results_transposed single_value_columns
               else Inr single_value_columns) of
           Inl e \<Rightarrow> Inl e
         | Inr results_to_drop \<Rightarrow>
             (case drop_columns results_to_drop results_transposed of
                Inl e \<Rightarrow> Inl e
              | Inr dropped \<Rightarrow> Inr (transpose_back dropped)))"


text \<open>
  \<open>pd.concat(frames, axis=1)\<close> with the default outer join: an empty list raises
  \<open>ValueError\<close>; the result has the union of the row labels, the columns of all frames side by
  side, and a missing cell wherever a frame has no row of that label.  The frames joined here
  come from dicts, so each has distinct row labels.
\<close>

definition reindex :: "'k \<Rightarrow> 'k dataframe \<Rightarrow> cell list" where
  "reindex k df =
     (case map_of (rows df) k of
        Some s \<Rightarrow> s
      | None \<Rightarrow> replicate (length (columns df)) None)"

definition concat_axis1 :: "'k dataframe list \<Rightarrow> error + 'k dataframe" where
  "concat_axis1 frames =
     (if frames = [] then Inl ValueError
      else Inr \<lparr>columns = concat (map columns frames),
                rows = map (\<lambda>k. (k, concat (map (reindex k) frames)))
                         (remdups (concat (map (\<lambda>df. map fst (rows df)) frames)))\<rparr>)"

text \<open>\<open>frame.columns = names\<close>: a list of another length raises \<open>ValueError\<close>.\<close>

definition set_columns :: "string list \<Rightarrow> 'k dataframe \<Rightarrow> error + 'k dataframe" where
  "set_columns names df =
     (if length names \<noteq> length (columns df) then Inl ValueError
      else Inr (df\<lparr>columns := names\<rparr>))"

section \<open>The property tree and the assignment cache\<close>

text \<open>
  \<open>pygenprop.tree\<close> is not part of the sources at hand; the tree is a parameter with the
  attributes results.py reads: a property has \<open>id\<close> (here \<open>gp_id\<close>, since \<open>id\<close> is the identity
  function of HOL), \<open>name\<close> (here \<open>gp_name\<close>) and \<open>steps\<close>; a step has \<open>number\<close>, \<open>name\<close> (here
  \<open>step_name\<close>) and \<open>genome_properties\<close>, its child properties.  The flag \<open>required\<close> and the
  \<open>requirement\<close> of a step are the attributes the specification lists for the assignment
  engine.  A tree has its \<open>root\<close> and the properties its iteration yields.
\<close>

datatype requirement = All_children | Any_child | At_least nat

datatype genome_property =
  GenomeProperty (gp_id: string) (gp_name: string) (steps: "step list")
and step =
  Step (number: int) (step_name: string) (required: bool) (requirement: requirement)
       (genome_properties: "genome_property list")

record genome_properties_tree =
  root :: genome_property
  tree_properties :: "genome_property list"

text \<open>
  Python dicts are association lists in insertion order.  \<open>d[k] = v\<close> replaces the value of a
  key in place or appends a new key; \<open>d.pop(k, None)\<close> removes the key if it is there.
\<close>

fun dict_set :: "'a \<Rightarrow> 'b \<Rightarrow> ('a \<times> 'b) list \<Rightarrow> ('a \<times> 'b) list" where
  "dict_set k v [] = [(k, v)]"
| "dict_set k v ((k', v') # d) = (if k' = k then (k, v) # d else (k', v') # dict_set k v d)"

definition dict_pop :: "'a \<Rightarrow> ('a \<times> 'b) list \<Rightarrow> ('a \<times> 'b) list" where
  "dict_pop k d = filter (\<lambda>(k', v). k' \<noteq> k) d"

text \<open>
  The attributes of \<open>AssignmentCache\<close> that results.py reads: the sample name, the dict of
  property assignments and the dict of dicts of step assignments (\<open>{gp_key -> {stp_key -> result}}\<close>).
\<close>

record assignment_cache =
  sample_name :: string
  property_assignments :: "(string \<times> assignment) list"
  step_assignments :: "(string \<times> (int \<times> assignment) list) list"

text \<open>
  Modelled from the spec: \<open>genome_property_identifiers\<close> of \<open>pygenprop.assign.AssignmentCache\<close>
  is missing from the sources.  The specification calls it the set of property identifiers
  known to the cache, the identifiers the cache mentions: those with a property assignment or
  with step assignments.
\<close>

definition genome_property_identifiers :: "assignment_cache \<Rightarrow> string list" where
  "genome_property_identifiers c =
     remdups (map fst (property_assignments c) @ map fst (step_assignments c))"

text \<open>
  Modelled from the spec: \<open>flush_property_from_cache\<close> of \<open>pygenprop.assign.AssignmentCache\<close> is
  missing from the sources.  The specification describes it as the operation that removes all
  entries for a given identifier.
\<close>

definition flush_property_from_cache :: "string \<Rightarrow> assignment_cache \<Rightarrow> assignment_cache" where
  "flush_property_from_cache identifier c =
     c\<lparr>property_assignments := dict_pop identifier (property_assignments c),
       step_assignments := dict_pop identifier (step_assignments c)\<rparr>"

text \<open>
  Python sets are duplicate-free lists; \<open>symmetric_difference\<close> lists the members of exactly
  one of the two.  A Python loop over a set visits its members in an order of its own.
\<close>

definition symmetric_difference :: "'a list \<Rightarrow> 'a list \<Rightarrow> 'a list" where
  "symmetric_difference xs ys =
     filter (\<lambda>x. x \<notin> set ys) (remdups xs) @ filter (\<lambda>y. y \<notin> set xs) (remdups ys)"

text \<open>
  \<open>create_synchronized_assignment_cache\<close>, on cache values.  \<open>deepcopy\<close> is the identity on
  values; the store model further down makes the copy explicit.
\<close>

definition create_synchronized_assignment_cache ::
    "assignment_cache \<Rightarrow> genome_properties_tree \<Rightarrow> assignment_cache" where
  "create_synchronized_assignment_cache assignment_cache genome_properties_tree =
     (let tree_identifiers = remdups (map gp_id (tree_properties genome_properties_tree));
          assignment_cache_identifiers = remdups (genome_property_identifiers assignment_cache);
          unshared_identifiers =
            symmetric_difference tree_identifiers assignment_cache_identifiers;
          sanitized_assignment_cache = assignment_cache
      in fold flush_property_from_cache unshared_identifiers sanitized_assignment_cache)"


section \<open>The assignment engine\<close>

text \<open>
  Modelled from the spec: \<open>assign_genome_property\<close> of \<open>pygenprop.assign\<close> is missing from the
  sources.  The specification (section 4.2) gives the engine: a property that already has a
  result in the cache is not recomputed; otherwise each step is assigned (a step with child
  properties from the results of its children, assigned first; a step without them from the
  cache, \<open>NO\<close> if it has no entry), the results of the required steps give the result of the
  property (\<open>YES\<close> if all are \<open>YES\<close>, \<open>NO\<close> if all are \<open>NO\<close> or there is none, \<open>PARTIAL\<close> otherwise),
  and the results of the property and of its steps are written into the cache.
\<close>

definition cache_property_assignment ::
    "string \<Rightarrow> assignment \<Rightarrow> assignment_cache \<Rightarrow> assignment_cache" where
  "cache_property_assignment i v c =
     c\<lparr>property_assignments := dict_set i v (property_assignments c)\<rparr>"

definition cache_step_assignment ::
    "string \<Rightarrow> int \<Rightarrow> assignment \<Rightarrow> assignment_cache \<Rightarrow> assignment_cache" where
  "cache_step_assignment i n v c =
     c\<lparr>step_assignments :=
         dict_set i
           (dict_set n v (case map_of (step_assignments c) i of Some d \<Rightarrow> d | None \<Rightarrow> []))
           (step_assignments c)\<rparr>"

definition get_property_assignment :: "assignment_cache \<Rightarrow> string \<Rightarrow> assignment option" where
  "get_property_assignment c i = map_of (property_assignments c) i"

definition get_step_assignment :: "assignment_cache \<Rightarrow> string \<Rightarrow> int \<Rightarrow> assignment option" where
  "get_step_assignment c i n =
     (case map_of (step_assignments c) i of None \<Rightarrow> None | Some d \<Rightarrow> map_of d n)"

definition property_assignment_from_steps :: "assignment list \<Rightarrow> assignment" where
  "property_assignment_from_steps required_results =
     (if required_results = [] then ''NO''
      else if list_all (\<lambda>r. r = ''YES'') required_results then ''YES''
      else if list_all (\<lambda>r. r = ''NO'') required_results then ''NO''
      else ''PARTIAL'')"

fun satisfied :: "requirement \<Rightarrow> assignment list \<Rightarrow> bool" where
  "satisfied All_children rs = list_all (\<lambda>r. r = ''YES'') rs"
| "satisfied Any_child rs = list_ex (\<lambda>r. r = ''YES'') rs"
| "satisfied (At_least n) rs = (n \<le> length (filter (\<lambda>r. r = ''YES'') rs))"

definition step_assignment_from_children :: "requirement \<Rightarrow> assignment list \<Rightarrow> assignment" where
  "step_assignment_from_children logic child_results =
     (if satisfied logic child_results then ''YES''
      else if list_all (\<lambda>r. r = ''NO'') child_results then ''NO''
      else ''PARTIAL'')"

fun assign_genome_property :: "assignment_cache \<Rightarrow> genome_property \<Rightarrow> assignment_cache"
and assign_steps ::
    "assignment_cache \<Rightarrow> string \<Rightarrow> step list \<Rightarrow> assignment_cache \<times> (bool \<times> assignment) list"
and assign_children :: "assignment_cache \<Rightarrow> genome_property list \<Rightarrow> assignment_cache"
where
  "assign_genome_property c (GenomeProperty i n ss) =
     (if get_property_assignment c i \<noteq> None then c
      else (case assign_steps c i ss of
              (c', results) \<Rightarrow>
                cache_property_assignment i
                  (property_assignment_from_steps (map snd (filter fst results))) c'))"
| "assign_steps c i [] = (c, [])"
| "assign_steps c i (Step num nm req logic kids # rest) =
     (let c1 = assign_children c kids;
          r = (if kids \<noteq> []
               then step_assignment_from_children logic
                      (map (\<lambda>k. case get_property_assignment c1 (gp_id k) of
                                   Some v \<Rightarrow> v | None \<Rightarrow> ''NO'') kids)
               else (case get_step_assignment c1 i num of Some v \<Rightarrow> v | None \<Rightarrow> ''NO''));
          c2 = cache_step_assignment i num r c1
      in case assign_steps c2 i rest of (c3, results) \<Rightarrow> (c3, (req, r) # results))"
| "assign_children c [] = c"
| "assign_children c (k # ks) = assign_children (assign_genome_property c k) ks"

section \<open>Building the tables\<close>

definition bootstrap_assignments ::
    "assignment_cache \<Rightarrow> genome_properties_tree \<Rightarrow> assignment_cache" where
  "bootstrap_assignments assignment_cache genome_properties_tree =
     assign_genome_property assignment_cache (root genome_properties_tree)"

definition create_step_table_rows ::
    "(string \<times> (int \<times> assignment) list) list \<Rightarrow> (string \<times> int \<times> assignment) list" where
  "create_step_table_rows step_assignments' =
     concat (map (\<lambda>(genome_property_id, step).
                    map (\<lambda>(step_number, step_result).
                           (genome_property_id, step_number, step_result)) step)
                 step_assignments')"

text \<open>
  \<open>DataFrame.from_dict(..., orient='index', columns=['Property_Result'])\<close> makes one row per
  key; the step rows become a frame indexed by the pair of property identifier and step number.
\<close>

definition create_assignment_tables ::
    "genome_properties_tree \<Rightarrow> assignment_cache \<Rightarrow>
       string dataframe \<times> (string \<times> int) dataframe" where
  "create_assignment_tables genome_properties_tree assignment_cache =
     (let sanitized_assignment_cache =
            create_synchronized_assignment_cache assignment_cache genome_properties_tree;
          assignments = bootstrap_assignments sanitized_assignment_cache genome_properties_tree;
          property_table =
            \<lparr>columns = [''Property_Result''],
             rows = map (\<lambda>(k, v). (k, [Some v])) (property_assignments assignments)\<rparr>;
          step_table =
            \<lparr>columns = [''Step_Result''],
             rows = map (\<lambda>(g, n, r). ((g, n), [Some r]))
                        (create_step_table_rows (step_assignments assignments))\<rparr>
      in (property_table, step_table))"

record genome_properties_results =
  tree :: genome_properties_tree
  sample_names :: "string list"
  property_results :: "string dataframe"
  step_results :: "(string \<times> int) dataframe"

text \<open>The constructor \<open>GenomePropertiesResults.__init__\<close>.\<close>

definition init ::
    "assignment_cache list \<Rightarrow> genome_properties_tree \<Rightarrow> error + genome_properties_results" where
  "init genome_properties_results genome_properties_tree =
     (let sample_names' = map sample_name genome_properties_results;
          tables = map (create_assignment_tables genome_properties_tree)
                       genome_properties_results;
          property_tables = map fst tables;
          step_tables = map snd tables
      in case concat_axis1 property_tables of
           Inl e \<Rightarrow> Inl e
         | Inr combined_properties_table \<Rightarrow>
        (case concat_axis1 step_tables of
           Inl e \<Rightarrow> Inl e
         | Inr combined_step_table \<Rightarrow>
        (case set_columns sample_names' combined_properties_table of
           Inl e \<Rightarrow> Inl e
         | Inr property_results' \<Rightarrow>
        (case set_columns sample_names' combined_step_table of
           Inl e \<Rightarrow> Inl e
         | Inr step_results' \<Rightarrow>
             Inr \<lparr>tree = genome_properties_tree, sample_names = sample_names',
                  property_results = property_results', step_results = step_results'\<rparr>))))"

section \<open>Queries\<close>

text \<open>
  \<open>frame.loc[label]\<close> raises \<open>KeyError\<close> for a label that is no row.  On the step table, whose
  rows are labelled by pairs, \<open>loc[genome_property_id]\<close> selects the rows of that property,
  labelled by step number, and the second \<open>loc\<close> selects among them.
\<close>

definition loc :: "'k dataframe \<Rightarrow> 'k \<Rightarrow> error + cell list" where
  "loc df k = (case map_of (rows df) k of None \<Rightarrow> Inl KeyError | Some s \<Rightarrow> Inr s)"

definition loc_level :: "('a \<times> 'b) dataframe \<Rightarrow> 'a \<Rightarrow> error + 'b dataframe" where
  "loc_level df g =
     (case filter (\<lambda>((g', n), s). g' = g) (rows df) of
        [] \<Rightarrow> Inl KeyError
      | sub \<Rightarrow> Inr \<lparr>columns = columns df, rows = map (\<lambda>((g', n), s). (n, s)) sub\<rparr>)"

definition get_property_result :: "genome_properties_results \<Rightarrow> string \<Rightarrow> cell list" where
  "get_property_result self genome_property_id =
     (case loc (property_results self) genome_property_id of
        Inr property_result \<Rightarrow> property_result
      | Inl e \<Rightarrow> replicate (length (columns (property_results self))) (Some ''NO''))"

definition get_step_result :: "genome_properties_results \<Rightarrow> string \<Rightarrow> int \<Rightarrow> cell list" where
  "get_step_result self genome_property_id step_number =
     (case loc_level (step_results self) genome_property_id of
        Inl e \<Rightarrow> replicate (length (columns (step_results self))) (Some ''NO'')
      | Inr sub \<Rightarrow>
          (case loc sub step_number of
             Inr property_result \<Rightarrow> property_result
           | Inl e \<Rightarrow> replicate (length (columns (step_results self))) (Some ''NO'')))"

definition differing_property_results ::
    "genome_properties_results \<Rightarrow> error + string dataframe" where
  "differing_property_results self =
     remove_results_with_shared_assignments (property_results self) False"

definition differing_step_results ::
    "genome_properties_results \<Rightarrow> error + (string \<times> int) dataframe" where
  "differing_step_results self =
     remove_results_with_shared_assignments (step_results self) False"

definition supported_property_results ::
    "genome_properties_results \<Rightarrow> error + string dataframe" where
  "supported_property_results self =
     remove_results_with_shared_assignments (property_results self) True"

definition supported_step_results ::
    "genome_properties_results \<Rightarrow> error + (string \<times> int) dataframe" where
  "supported_step_results self =
     remove_results_with_shared_assignments (step_results self) True"

section \<open>The tree export\<close>

datatype json_node =
  PropertyNode (property_id: string) (name: string) (enabled: bool) (result: "cell list")
               (children: "json_node list")
| StepNode (step_id: int) (name: string) (enabled: bool) (result: "cell list")

text \<open>
  \<open>generate_json_tree\<close> with its two loops: over the steps of the property, and over the child
  properties of a step; both append to the list \<open>children\<close>.
\<close>

fun generate_json_tree :: "genome_properties_results \<Rightarrow> genome_property \<Rightarrow> json_node"
and steps_loop ::
    "genome_properties_results \<Rightarrow> string \<Rightarrow> step list \<Rightarrow> json_node list \<Rightarrow> json_node list"
and child_loop ::
    "genome_properties_results \<Rightarrow> genome_property list \<Rightarrow> json_node list \<Rightarrow> json_node list"
where
  "generate_json_tree self (GenomeProperty i n ss) =
     PropertyNode i n False (get_property_result self i) (steps_loop self i ss [])"
| "steps_loop self i [] children' = children'"
| "steps_loop self i (Step num nm req logic step_child_properties # rest) children' =
     (if step_child_properties \<noteq> []
      then steps_loop self i rest (child_loop self step_child_properties children')
      else steps_loop self i rest
             (children' @ [StepNode num nm False (get_step_result self i num)]))"
| "child_loop self [] children' = children'"
| "child_loop self (child # rest) children' =
     child_loop self rest (children' @ [generate_json_tree self child])"

text \<open>\<open>to_json\<close> before serialisation: the sample names and the tree of the root.\<close>

definition to_json :: "genome_properties_results \<Rightarrow> string list \<times> json_node" where
  "to_json self = (sample_names self, generate_json_tree self (root (tree self)))"


section \<open>Notions of the specification\<close>

text \<open>
  The specification speaks of rows whose values are all identical, and of rows whose values
  are all \<open>NO\<close>.
\<close>

definition all_identical :: "cell list \<Rightarrow> bool" where
  "all_identical s = (case s of [] \<Rightarrow> True | v # vs \<Rightarrow> list_all (\<lambda>w. w = v) vs)"

definition all_no :: "cell list \<Rightarrow> bool" where
  "all_no s = list_all (\<lambda>c. c = Some ''NO'') s"

text \<open>The two tables of one sample, and the value of a one-column table at a row label.\<close>

definition sample_property_table ::
    "genome_properties_tree \<Rightarrow> assignment_cache \<Rightarrow> string dataframe" where
  "sample_property_table t c = fst (create_assignment_tables t c)"

definition sample_step_table ::
    "genome_properties_tree \<Rightarrow> assignment_cache \<Rightarrow> (string \<times> int) dataframe" where
  "sample_step_table t c = snd (create_assignment_tables t c)"

definition table_cell :: "'k dataframe \<Rightarrow> 'k \<Rightarrow> cell" where
  "table_cell df k = (case map_of (rows df) k of Some (v # _) \<Rightarrow> v | _ \<Rightarrow> None)"

definition single_column :: "'k dataframe \<Rightarrow> bool" where
  "single_column df \<longleftrightarrow>
     length (columns df) = 1 \<and> list_all (\<lambda>(k, s). length s = 1) (rows df)"

text \<open>All nodes of an exported tree, and the nodes one step contributes to \<open>children\<close>.\<close>

fun nodes :: "json_node \<Rightarrow> json_node list" where
  "nodes (PropertyNode i n e r cs) = PropertyNode i n e r cs # concat (map nodes cs)"
| "nodes (StepNode i n e r) = [StepNode i n e r]"

definition step_children ::
    "genome_properties_results \<Rightarrow> string \<Rightarrow> step \<Rightarrow> json_node list" where
  "step_children self i s =
     (if genome_properties s \<noteq> [] then map (generate_json_tree self) (genome_properties s)
      else [StepNode (number s) (step_name s) False (get_step_result self i (number s))])"

section \<open>Example inputs\<close>

text \<open>
  A tree with root \<open>R\<close> whose single step has the child properties \<open>X\<close>, \<open>Y\<close> and \<open>Z\<close>, and the
  caches of two samples.  Both caches hold a result for the root, so the engine recomputes
  nothing; sample \<open>A\<close> has results for \<open>X\<close> and \<open>Z\<close> only, sample \<open>B\<close> for \<open>Y\<close> only.
\<close>

definition example_leaf :: "string \<Rightarrow> genome_property" where
  "example_leaf i = GenomeProperty i ''leaf'' [Step 1 ''evidence'' True All_children []]"

definition example_root :: genome_property where
  "example_root =
     GenomeProperty ''R'' ''root''
       [Step 1 ''first'' True Any_child [example_leaf ''X'', example_leaf ''Y'', example_leaf ''Z'']]"

definition example_tree :: genome_properties_tree where
  "example_tree =
     \<lparr>root = example_root,
      tree_properties = [example_root, example_leaf ''X'', example_leaf ''Y'', example_leaf ''Z'']\<rparr>"

definition example_cache_A :: assignment_cache where
  "example_cache_A =
     \<lparr>sample_name = ''A'',
      property_assignments = [(''R'', ''YES''), (''X'', ''YES''), (''Z'', ''NO'')],
      step_assignments = []\<rparr>"

definition example_cache_B :: assignment_cache where
  "example_cache_B =
     \<lparr>sample_name = ''B'',
      property_assignments = [(''R'', ''YES''), (''Y'', ''NO'')],
      step_assignments = []\<rparr>"

definition example_results :: genome_properties_results where
  "example_results =
     \<lparr>tree = example_tree, sample_names = [''A'', ''B''],
      property_results =
        \<lparr>columns = [''A'', ''B''],
         rows = [(''X'', [Some ''YES'', None]), (''Z'', [Some ''NO'', None]),
                 (''R'', [Some ''YES'', Some ''YES'']), (''Y'', [None, Some ''NO''])]\<rparr>,
      step_results = \<lparr>columns = [''A'', ''B''], rows = []\<rparr>\<rparr>"

text \<open>The tree \<open>{A, B, C}\<close> and the cache \<open>{B, C, D}\<close> of the specification's example.\<close>

definition abc_tree :: genome_properties_tree where
  "abc_tree =
     \<lparr>root = GenomeProperty ''A'' ''a'' [],
      tree_properties =
        [GenomeProperty ''A'' ''a'' [], GenomeProperty ''B'' ''b'' [], GenomeProperty ''C'' ''c'' []]\<rparr>"

definition bcd_cache :: assignment_cache where
  "bcd_cache =
     \<lparr>sample_name = ''S'',
      property_assignments = [(''B'', ''YES''), (''C'', ''NO''), (''D'', ''YES'')],
      step_assignments = [(''B'', [(1, ''YES'')]), (''D'', [(1, ''YES''), (2, ''NO'')])]\<rparr>"

text \<open>The two-sample tables of the specification's filter examples.\<close>

definition xy_table :: "string dataframe" where
  "xy_table =
     \<lparr>columns = [''A'', ''B''],
      rows = [(''X'', [Some ''YES'', Some ''YES'']), (''Y'', [Some ''YES'', Some ''NO'']),
              (''Z'', [Some ''NO'', Some ''NO'']), (''W'', [Some ''NO'', Some ''PARTIAL''])]\<rparr>"

section \<open>The cache as objects in a store\<close>

text \<open>
  Whether \<open>create_synchronized_assignment_cache\<close> leaves its argument alone depends on what
  \<open>deepcopy\<close> copies and on what \<open>flush_property_from_cache\<close> writes to.  Here the cache, its
  two dicts and the inner dicts of the step assignments are separate objects of a store,
  addressed by their position; a new object is put at the end of the store.
\<close>

type_synonym addr = nat

datatype obj =
  Cache_obj string addr addr
| Property_dict "(string \<times> assignment) list"
| Step_dict "(string \<times> addr) list"
| Inner_dict "(int \<times> assignment) list"

type_synonym store = "obj list"

definition lookup :: "store \<Rightarrow> addr \<Rightarrow> obj option" where
  "lookup h a = (if a < length h then Some (h ! a) else None)"

definition alloc :: "store \<Rightarrow> obj \<Rightarrow> store \<times> addr" where
  "alloc h x = (h @ [x], length h)"

text \<open>The cache value that the objects at an address make up.\<close>

fun read_inner_dicts ::
    "store \<Rightarrow> (string \<times> addr) list \<Rightarrow> (string \<times> (int \<times> assignment) list) list option" where
  "read_inner_dicts h [] = Some []"
| "read_inner_dicts h ((k, a) # refs) =
     (case lookup h a of
        Some (Inner_dict d) \<Rightarrow>
          (case read_inner_dicts h refs of Some ds \<Rightarrow> Some ((k, d) # ds) | None \<Rightarrow> None)
      | _ \<Rightarrow> None)"

definition read_cache :: "store \<Rightarrow> addr \<Rightarrow> assignment_cache option" where
  "read_cache h a =
     (case lookup h a of
        Some (Cache_obj n p s) \<Rightarrow>
          (case lookup h p of
             Some (Property_dict pd) \<Rightarrow>
               (case lookup h s of
                  Some (Step_dict refs) \<Rightarrow>
                    (case read_inner_dicts h refs of
                       Some sd \<Rightarrow>
                         Some \<lparr>sample_name = n, property_assignments = pd,
                               step_assignments = sd\<rparr>
                     | None \<Rightarrow> None)
                | _ \<Rightarrow> None)
           | _ \<Rightarrow> None)
      | _ \<Rightarrow> None)"

text \<open>The addresses of the objects of a cache: the cache, its two dicts, the inner dicts.\<close>

definition cache_addrs :: "store \<Rightarrow> addr \<Rightarrow> addr list" where
  "cache_addrs h a =
     (case lookup h a of
        Some (Cache_obj n p s) \<Rightarrow>
          a # p # s # (case lookup h s of Some (Step_dict refs) \<Rightarrow> map snd refs | _ \<Rightarrow> [])
      | _ \<Rightarrow> [a])"

text \<open>
  \<open>copy.deepcopy\<close> of a cache: a new object for the property dict, for every inner dict, for
  the step dict and for the cache itself.  (Python copies an object reachable twice only
  once; the cache value read from the copy is the same.)
\<close>

fun copy_inner_dicts ::
    "store \<Rightarrow> (string \<times> addr) list \<Rightarrow> (store \<times> (string \<times> addr) list) option" where
  "copy_inner_dicts h [] = Some (h, [])"
| "copy_inner_dicts h ((k, a) # refs) =
     (case lookup h a of
        Some (Inner_dict d) \<Rightarrow>
          (case alloc h (Inner_dict d) of
             (h1, a1) \<Rightarrow>
               (case copy_inner_dicts h1 refs of
                  Some (h2, refs') \<Rightarrow> Some (h2, (k, a1) # refs')
                | None \<Rightarrow> None))
      | _ \<Rightarrow> None)"

definition deepcopy :: "store \<Rightarrow> addr \<Rightarrow> (store \<times> addr) option" where
  "deepcopy h a =
     (case lookup h a of
        Some (Cache_obj n p s) \<Rightarrow>
          (case lookup h p of
             Some (Property_dict pd) \<Rightarrow>
               (case lookup h s of
                  Some (Step_dict refs) \<Rightarrow>
                    (case alloc h (Property_dict pd) of
                       (h1, p') \<Rightarrow>
                         (case copy_inner_dicts h1 refs of
                            Some (h2, refs') \<Rightarrow>
                              (case alloc h2 (Step_dict refs') of
                                 (h3, s') \<Rightarrow> Some (alloc h3 (Cache_obj n p' s')))
                          | None \<Rightarrow> None))
                | _ \<Rightarrow> None)
           | _ \<Rightarrow> None)
      | _ \<Rightarrow> None)"

text \<open>
  Modelled from the spec: \<open>genome_property_identifiers\<close> and \<open>flush_property_from_cache\<close> of
  \<open>pygenprop.assign.AssignmentCache\<close>, missing from the sources, on the objects of the store:
  the identifiers are the keys of the two dicts, and the flush removes the key from both
  dicts in place.
\<close>

definition genome_property_identifiers_at :: "store \<Rightarrow> addr \<Rightarrow> string list option" where
  "genome_property_identifiers_at h a =
     (case lookup h a of
        Some (Cache_obj n p s) \<Rightarrow>
          (case lookup h p of
             Some (Property_dict pd) \<Rightarrow>
               (case lookup h s of
                  Some (Step_dict refs) \<Rightarrow> Some (remdups (map fst pd @ map fst refs))
                | _ \<Rightarrow> None)
           | _ \<Rightarrow> None)
      | _ \<Rightarrow> None)"

definition flush_property_from_cache_at :: "string \<Rightarrow> addr \<Rightarrow> store \<Rightarrow> store option" where
  "flush_property_from_cache_at identifier a h =
     (case lookup h a of
        Some (Cache_obj n p s) \<Rightarrow>
          (case lookup h p of
             Some (Property_dict pd) \<Rightarrow>
               (let h1 = h[p := Property_dict (dict_pop identifier pd)]
                in case lookup h1 s of
                     Some (Step_dict refs) \<Rightarrow> Some (h1[s := Step_dict (dict_pop identifier refs)])
                   | _ \<Rightarrow> None)
           | _ \<Rightarrow> None)
      | _ \<Rightarrow> None)"

fun flush_each :: "string list \<Rightarrow> addr \<Rightarrow> store \<Rightarrow> store option" where
  "flush_each [] a h = Some h"
| "flush_each (identifier # rest) a h =
     (case flush_property_from_cache_at identifier a h of
        Some h' \<Rightarrow> flush_each rest a h'
      | None \<Rightarrow> None)"

text \<open>
  \<open>create_synchronized_assignment_cache\<close> on the store: it takes the address of the cache and
  returns the new store and the address of the sanitized cache.
\<close>

definition create_synchronized_assignment_cache_at ::
    "store \<Rightarrow> addr \<Rightarrow> genome_properties_tree \<Rightarrow> (store \<times> addr) option" where
  "create_synchronized_assignment_cache_at h assignment_cache genome_properties_tree =
     (case genome_property_identifiers_at h assignment_cache of
        None \<Rightarrow> None
      | Some identifiers \<Rightarrow>
          (let tree_identifiers = remdups (map gp_id (tree_properties genome_properties_tree));
               assignment_cache_identifiers = remdups identifiers;
               unshared_identifiers =
                 symmetric_difference tree_identifiers assignment_cache_identifiers
           in case deepcopy h assignment_cache of
                None \<Rightarrow> None
              | Some (h1, sanitized_assignment_cache) \<Rightarrow>
                  (case flush_each unshared_identifiers sanitized_assignment_cache h1 of
                     Some h2 \<Rightarrow> Some (h2, sanitized_assignment_cache)
                   | None \<Rightarrow> None)))"

text \<open>The cache \<open>{B, C, D}\<close> as five objects; the cache itself is at address 4.\<close>

definition bcd_store :: store where
  "bcd_store =
     [Property_dict [(''B'', ''YES''), (''C'', ''NO''), (''D'', ''YES'')],
      Inner_dict [(1, ''YES'')],
      Inner_dict [(1, ''YES''), (2, ''NO'')],
      Step_dict [(''B'', 1), (''D'', 2)],
      Cache_obj ''S'' 0 3]"

text \<open>
  A table with a row of differing values, a row of equal values, and two rows with missing
  values.
\<close>

definition mixed_table :: "string dataframe" where
  "mixed_table =
     \<lparr>columns = [''A'', ''B''],
      rows = [(''P'', [Some ''YES'', Some ''NO'']), (''Q'', [Some ''YES'', Some ''YES'']),
              (''X'', [Some ''YES'', None]), (''V'', [None, None])]\<rparr>"

text \<open>The result of the constructor on the two example caches in the other order.\<close>

definition example_results_swapped :: genome_properties_results where
  "example_results_swapped =
     \<lparr>tree = example_tree, sample_names = [''B'', ''A''],
      property_results =
        \<lparr>columns = [''B'', ''A''],
         rows = [(''Y'', [Some ''NO'', None]), (''R'', [Some ''YES'', Some ''YES'']),
                 (''X'', [None, Some ''YES'']), (''Z'', [None, Some ''NO''])]\<rparr>,
      step_results = \<lparr>columns = [''B'', ''A''], rows = []\<rparr>\<rparr>"


section \<open>The filters\<close>

lemma unique_Cons: "unique (c # cs) = c # unique_from [c] cs"
  by (simp add: unique_def)

lemma filter_by_labels:
  assumes "distinct (map fst xs)"
  shows "filter (\<lambda>(k, s). k \<notin> fst ` {x \<in> set xs. P x}) xs = filter (\<lambda>x. \<not> P x) xs"
proof (rule filter_cong[OF refl])
  fix x assume x: "x \<in> set xs"
  obtain k s where ks: "x = (k, s)" by (cases x)
  have "k \<in> fst ` {x \<in> set xs. P x} \<longleftrightarrow> P (k, s)"
  proof
    assume "k \<in> fst ` {x \<in> set xs. P x}"
    then obtain s' where s': "(k, s') \<in> set xs" "P (k, s')" by auto
    with assms x ks have "s' = s" by (meson eq_key_imp_eq_value)
    with s' show "P (k, s)" by simp
  next
    assume "P (k, s)"
    with x ks show "k \<in> fst ` {x \<in> set xs. P x}" by force
  qed
  then show "(case x of (k, s) \<Rightarrow> k \<notin> fst ` {x \<in> set xs. P x}) = (\<not> P x)"
    by (simp add: ks)
qed

lemma drop_columns_selected:
  "set labels = fst ` {x \<in> set (t_columns tf). P x} \<Longrightarrow> distinct (map fst (t_columns tf)) \<Longrightarrow>
   drop_columns labels tf = Inr (tf\<lparr>t_columns := filter (\<lambda>x. \<not> P x) (t_columns tf)\<rparr>)"
  unfolding drop_columns_def
  by (auto simp: filter_by_labels)

lemma differing_rows:
  assumes "distinct (map fst (rows df))"
  shows "remove_results_with_shared_assignments df False =
     Inr \<lparr>columns = columns df, rows = filter (\<lambda>(k, s). nunique s \<noteq> 1) (rows df)\<rparr>"
proof -
  let ?tf = "transpose df"
  let ?P = "\<lambda>(k, s). nunique s = 1"
  have labels: "set (map fst (filter (\<lambda>(k, n). n = 1) (map (\<lambda>(k, s). (k, nunique s)) (t_columns ?tf))))
      = fst ` {x \<in> set (t_columns ?tf). ?P x}"
    by (force simp: image_iff)
  have d: "distinct (map fst (t_columns ?tf))" using assms by (simp add: transpose_def)
  have dr: "drop_columns (map fst (filter (\<lambda>(k, n). n = 1) (map (\<lambda>(k, s). (k, nunique s)) (t_columns ?tf)))) ?tf
     = Inr (?tf\<lparr>t_columns := filter (\<lambda>x. \<not> ?P x) (t_columns ?tf)\<rparr>)"
    by (rule drop_columns_selected[OF labels d])
  show ?thesis
    unfolding remove_results_with_shared_assignments_def Let_def
    by (simp only: if_False dr sum.case)
       (simp add: transpose_back_def transpose_def case_prod_unfold)
qed


lemma nunique_Nil: "nunique [] = 0"
  by (simp add: nunique_def)

lemma no_columns_filter:
  assumes "\<forall>k \<in> set ks. \<exists>s. map_of (t_columns tf) k = Some s \<and> s \<noteq> []"
  shows "no_columns tf ks =
     Inr (filter (\<lambda>k. \<exists>s. map_of (t_columns tf) k = Some s \<and> hd s = Some ''NO'') ks)"
  using assms
proof (induction ks)
  case Nil
  then show ?case by simp
next
  case (Cons k ks)
  then obtain s where s: "map_of (t_columns tf) k = Some s" "s \<noteq> []" by auto
  then obtain c cs where cs: "s = c # cs" by (cases s) auto
  from Cons have "no_columns tf ks =
     Inr (filter (\<lambda>k. \<exists>s. map_of (t_columns tf) k = Some s \<and> hd s = Some ''NO'') ks)"
    by simp
  then show ?case using s cs by (simp add: unique_Cons)
qed

lemma supported_rows:
  assumes "distinct (map fst (rows df))"
  shows "remove_results_with_shared_assignments df True =
     Inr \<lparr>columns = columns df,
          rows = filter (\<lambda>(k, s). \<not> (nunique s = 1 \<and> hd s = Some ''NO'')) (rows df)\<rparr>"
proof -
  let ?tf = "transpose df"
  let ?single = "map fst (filter (\<lambda>(k, n). n = 1) (map (\<lambda>(k, s). (k, nunique s)) (t_columns ?tf)))"
  let ?P = "\<lambda>(k, s). nunique s = 1 \<and> hd s = Some ''NO''"
  have cols: "t_columns ?tf = rows df" by (simp add: transpose_def)
  have d: "distinct (map fst (t_columns ?tf))" using assms by (simp add: cols)
  have single: "set ?single = fst ` {x \<in> set (rows df). nunique (snd x) = 1}"
    by (force simp: cols image_iff)
  have look: "\<forall>k \<in> set ?single. \<exists>s. map_of (t_columns ?tf) k = Some s \<and> s \<noteq> []"
  proof
    fix k assume "k \<in> set ?single"
    then obtain s where s: "(k, s) \<in> set (rows df)" "nunique s = 1"
      unfolding single by auto
    from s(2) have "s \<noteq> []" by (auto simp: nunique_Nil)
    moreover from s(1) assms have "map_of (rows df) k = Some s" by simp
    ultimately show "\<exists>s. map_of (t_columns ?tf) k = Some s \<and> s \<noteq> []" by (simp add: cols)
  qed
  let ?drop = "filter (\<lambda>k. \<exists>s. map_of (t_columns ?tf) k = Some s \<and> hd s = Some ''NO'') ?single"
  have nc: "no_columns ?tf ?single = Inr ?drop"
    by (rule no_columns_filter[OF look])
  have labels: "set ?drop = fst ` {x \<in> set (t_columns ?tf). ?P x}"
  proof (rule set_eqI)
    fix k
    show "k \<in> set ?drop \<longleftrightarrow> k \<in> fst ` {x \<in> set (t_columns ?tf). ?P x}"
    proof
      assume "k \<in> set ?drop"
      then obtain s where 1: "k \<in> set ?single" and 2: "map_of (rows df) k = Some s" "hd s = Some ''NO''"
        by (auto simp: cols)
      from 1 obtain s' where 3: "(k, s') \<in> set (rows df)" "nunique s' = 1"
        unfolding single by auto
      from 3(1) assms have "map_of (rows df) k = Some s'" by simp
      with 2 have "s' = s" by simp
      with 2 3 show "k \<in> fst ` {x \<in> set (t_columns ?tf). ?P x}" by (force simp: cols)
    next
      assume "k \<in> fst ` {x \<in> set (t_columns ?tf). ?P x}"
      then obtain s where 1: "(k, s) \<in> set (rows df)" "nunique s = 1" "hd s = Some ''NO''"
        by (auto simp: cols)
      from 1(1) assms have "map_of (rows df) k = Some s" by simp
      moreover from 1 have "k \<in> set ?single" unfolding single by force
      ultimately show "k \<in> set ?drop" using 1 by (simp add: cols)
    qed
  qed
  have dr: "drop_columns ?drop ?tf = Inr (?tf\<lparr>t_columns := filter (\<lambda>x. \<not> ?P x) (t_columns ?tf)\<rparr>)"
    by (rule drop_columns_selected[OF labels d])
  show ?thesis
    unfolding remove_results_with_shared_assignments_def Let_def
    by (simp only: if_True nc dr sum.case)
       (simp add: transpose_back_def transpose_def case_prod_unfold)
qed

lemma nunique_complete:
  assumes "None \<notin> set s"
  shows "nunique s = card (set s)"
proof -
  from assms have "filter (\<lambda>c. c \<noteq> None) s = s"
    by (intro filter_True) metis
  then show ?thesis by (simp add: nunique_def length_remdups_card_conv)
qed

lemma all_identical_set: "all_identical s \<longleftrightarrow> s = [] \<or> set s = {hd s}"
  by (cases s) (auto simp: all_identical_def list_all_iff)

lemma nunique_all_identical:
  assumes "s \<noteq> []" "None \<notin> set s"
  shows "nunique s = 1 \<longleftrightarrow> all_identical s"
proof -
  have "card (set s) = 1 \<longleftrightarrow> set s = {hd s}"
  proof
    assume "card (set s) = 1"
    then obtain v where "set s = {v}" by (auto simp: card_1_singleton_iff)
    moreover from assms have "hd s \<in> set s" by simp
    ultimately show "set s = {hd s}" by auto
  qed simp
  with assms show ?thesis by (simp add: nunique_complete all_identical_set)
qed

lemma nunique_all_no:
  assumes "s \<noteq> []" "None \<notin> set s"
  shows "nunique s = 1 \<and> hd s = Some ''NO'' \<longleftrightarrow> all_no s"
proof -
  have "all_no s \<longleftrightarrow> set s = {Some ''NO''}"
    using assms(1) by (cases s) (auto simp: all_no_def list_all_iff)
  moreover have "all_identical s \<and> hd s = Some ''NO'' \<longleftrightarrow> set s = {Some ''NO''}"
    using assms(1) by (cases s) (auto simp: all_identical_set)
  ultimately show ?thesis using nunique_all_identical[OF assms] by blast
qed


text \<open>
  C9.  For a table with distinct row labels both filters return a table, and every row the
  differential filter keeps is kept by the supported-only filter: the supported results
  contain every differing result.
\<close>

theorem differing_subset_supported:
  assumes "distinct (map fst (rows df))"
  shows "\<exists>d s. remove_results_with_shared_assignments df False = Inr d \<and>
               remove_results_with_shared_assignments df True = Inr s \<and>
               set (rows d) \<subseteq> set (rows s)"
  unfolding differing_rows[OF assms] supported_rows[OF assms] by auto

theorem differing_subset_supported_witness:
  "distinct (map fst (rows xy_table)) \<and>
   (\<exists>d s. remove_results_with_shared_assignments xy_table False = Inr d \<and>
          remove_results_with_shared_assignments xy_table True = Inr s \<and>
          set (rows d) \<subseteq> set (rows s))"
proof -
  have d: "distinct (map fst (rows xy_table))" by (simp add: xy_table_def)
  from d differing_subset_supported[OF d] show ?thesis by simp
qed

text \<open>
  C4 (amended).  For a table with distinct row labels the differential filter returns the
  table of the rows it retains: a row with at least one sample and no missing value is
  retained exactly if its values are not all identical, whatever the other rows hold; a row
  with missing values is retained exactly if the number of its distinct values that are not
  missing is other than one.
\<close>

theorem differing_results_rows:
  assumes "distinct (map fst (rows df))"
  shows "remove_results_with_shared_assignments df False =
     Inr \<lparr>columns = columns df,
          rows = filter (\<lambda>(k, s). if s \<noteq> [] \<and> None \<notin> set s then \<not> all_identical s
                                   else nunique s \<noteq> 1) (rows df)\<rparr>"
proof -
  have "filter (\<lambda>(k, s). nunique s \<noteq> 1) (rows df) =
        filter (\<lambda>(k, s). if s \<noteq> [] \<and> None \<notin> set s then \<not> all_identical s
                         else nunique s \<noteq> 1) (rows df)"
  proof (rule filter_cong[OF refl])
    fix x assume "x \<in> set (rows df)"
    show "(case x of (k, s) \<Rightarrow> nunique s \<noteq> 1) =
          (case x of (k, s) \<Rightarrow> if s \<noteq> [] \<and> None \<notin> set s then \<not> all_identical s
                                 else nunique s \<noteq> 1)"
      using nunique_all_identical[of "snd x"] by (simp add: case_prod_unfold)
  qed
  with differing_rows[OF assms] show ?thesis by simp
qed

theorem differing_results_rows_witness:
  "distinct (map fst (rows mixed_table)) \<and>
   remove_results_with_shared_assignments mixed_table False =
     Inr \<lparr>columns = [''A'', ''B''],
          rows = [(''P'', [Some ''YES'', Some ''NO'']), (''V'', [None, None])]\<rparr>"
proof -
  have d: "distinct (map fst (rows mixed_table))" by (simp add: mixed_table_def)
  from differing_results_rows[OF d] d show ?thesis
    by (simp add: mixed_table_def all_identical_def nunique_def)
qed

section \<open>The synchronised cache\<close>

lemma fold_flush:
  "fold flush_property_from_cache xs c =
     c\<lparr>property_assignments := filter (\<lambda>(k, v). k \<notin> set xs) (property_assignments c),
       step_assignments := filter (\<lambda>(k, v). k \<notin> set xs) (step_assignments c)\<rparr>"
proof (induction xs arbitrary: c)
  case Nil
  then show ?case by simp
next
  case (Cons x xs)
  have "fold flush_property_from_cache (x # xs) c =
        fold flush_property_from_cache xs (flush_property_from_cache x c)"
    by simp
  also have "\<dots> = c\<lparr>property_assignments := filter (\<lambda>(k, v). k \<notin> set (x # xs)) (property_assignments c),
       step_assignments := filter (\<lambda>(k, v). k \<notin> set (x # xs)) (step_assignments c)\<rparr>"
    unfolding Cons.IH
    by (simp add: flush_property_from_cache_def dict_pop_def case_prod_unfold conj_commute)
  finally show ?case .
qed

lemma set_symmetric_difference:
  "set (symmetric_difference xs ys) = (set xs - set ys) \<union> (set ys - set xs)"
  by (auto simp: symmetric_difference_def)

lemma synchronized_cache:
  "create_synchronized_assignment_cache c t =
     c\<lparr>property_assignments :=
         filter (\<lambda>(k, v). k \<in> gp_id ` set (tree_properties t)) (property_assignments c),
       step_assignments :=
         filter (\<lambda>(k, v). k \<in> gp_id ` set (tree_properties t)) (step_assignments c)\<rparr>"
proof -
  let ?T = "gp_id ` set (tree_properties t)"
  let ?U = "symmetric_difference (remdups (map gp_id (tree_properties t)))
              (remdups (genome_property_identifiers c))"
  have U: "set ?U = (?T - set (genome_property_identifiers c)) \<union> (set (genome_property_identifiers c) - ?T)"
    by (simp add: set_symmetric_difference)
  have mem: "\<And>k. k \<in> set (genome_property_identifiers c) \<Longrightarrow> (k \<notin> set ?U) = (k \<in> ?T)"
    unfolding U by blast
  have p: "filter (\<lambda>(k, v). k \<notin> set ?U) (property_assignments c) =
           filter (\<lambda>(k, v). k \<in> ?T) (property_assignments c)"
  proof (rule filter_cong[OF refl])
    fix x assume x: "x \<in> set (property_assignments c)"
    then have "fst x \<in> set (genome_property_identifiers c)"
      by (simp add: genome_property_identifiers_def)
    from mem[OF this] show "(case x of (k, v) \<Rightarrow> k \<notin> set ?U) = (case x of (k, v) \<Rightarrow> k \<in> ?T)"
      by (simp add: case_prod_unfold)
  qed
  have s: "filter (\<lambda>(k, v). k \<notin> set ?U) (step_assignments c) =
           filter (\<lambda>(k, v). k \<in> ?T) (step_assignments c)"
  proof (rule filter_cong[OF refl])
    fix x assume x: "x \<in> set (step_assignments c)"
    then have "fst x \<in> set (genome_property_identifiers c)"
      by (simp add: genome_property_identifiers_def)
    from mem[OF this] show "(case x of (k, v) \<Rightarrow> k \<notin> set ?U) = (case x of (k, v) \<Rightarrow> k \<in> ?T)"
      by (simp add: case_prod_unfold)
  qed
  show ?thesis
    unfolding create_synchronized_assignment_cache_def Let_def fold_flush p s ..
qed

lemma keys_filter: "fst ` {x \<in> set xs. case x of (k, v) \<Rightarrow> P k} = {k \<in> fst ` set xs. P k}"
  by force

lemma synchronized_identifiers:
  "set (genome_property_identifiers (create_synchronized_assignment_cache c t)) =
     set (genome_property_identifiers c) \<inter> gp_id ` set (tree_properties t)"
  unfolding synchronized_cache
  by (simp add: genome_property_identifiers_def keys_filter) blast

lemma map_of_filter_keys:
  "map_of (filter (\<lambda>(k, v). P k) xs) k = (if P k then map_of xs k else None)"
  by (induction xs) auto


section \<open>The combined tables\<close>

lemma single_column_tables:
  "single_column (sample_property_table t c)" "single_column (sample_step_table t c)"
  by (simp_all add: single_column_def sample_property_table_def sample_step_table_def
      create_assignment_tables_def Let_def list_all_iff split: prod.splits) 

lemma reindex_single:
  assumes "single_column df"
  shows "reindex k df = [table_cell df k]"
proof (cases "map_of (rows df) k")
  case None
  with assms show ?thesis by (simp add: reindex_def table_cell_def single_column_def)
next
  case (Some s)
  then have "(k, s) \<in> set (rows df)" by (rule map_of_SomeD)
  with assms have "length s = 1" by (auto simp: single_column_def list_all_iff)
  then obtain v where "s = [v]" by (cases s) auto
  with Some show ?thesis by (simp add: reindex_def table_cell_def)
qed

lemma concat_reindex:
  assumes "\<forall>df \<in> set frames. single_column df"
  shows "concat (map (reindex k) frames) = map (\<lambda>df. table_cell df k) frames"
  using assms by (induction frames) (simp_all add: reindex_single)

lemma concat_columns:
  assumes "\<forall>df \<in> set frames. single_column df"
  shows "length (concat (map columns frames)) = length frames"
  using assms by (induction frames) (simp_all add: single_column_def)

lemma concat_axis1_single:
  assumes "frames \<noteq> []" "\<forall>df \<in> set frames. single_column df"
  shows "concat_axis1 frames =
     Inr \<lparr>columns = concat (map columns frames),
          rows = map (\<lambda>k. (k, map (\<lambda>df. table_cell df k) frames))
                   (remdups (concat (map (\<lambda>df. map fst (rows df)) frames)))\<rparr>"
  using assms by (simp add: concat_axis1_def concat_reindex)

lemma init_tables:
  assumes "caches \<noteq> []"
  shows "init caches t =
     Inr \<lparr>tree = t, sample_names = map sample_name caches,
          property_results =
            \<lparr>columns = map sample_name caches,
             rows = map (\<lambda>k. (k, map (\<lambda>c. table_cell (sample_property_table t c) k) caches))
                      (remdups (concat (map (\<lambda>c. map fst (rows (sample_property_table t c))) caches)))\<rparr>,
          step_results =
            \<lparr>columns = map sample_name caches,
             rows = map (\<lambda>k. (k, map (\<lambda>c. table_cell (sample_step_table t c) k) caches))
                      (remdups (concat (map (\<lambda>c. map fst (rows (sample_step_table t c))) caches)))\<rparr>\<rparr>"
proof -
  let ?ps = "map (sample_property_table t) caches"
  let ?ss = "map (sample_step_table t) caches"
  have ps: "map fst (map (create_assignment_tables t) caches) = ?ps"
    by (simp add: sample_property_table_def)
  have ss: "map snd (map (create_assignment_tables t) caches) = ?ss"
    by (simp add: sample_step_table_def)
  have cp: "concat_axis1 ?ps =
     Inr \<lparr>columns = concat (map columns ?ps),
          rows = map (\<lambda>k. (k, map (\<lambda>df. table_cell df k) ?ps))
                   (remdups (concat (map (\<lambda>df. map fst (rows df)) ?ps)))\<rparr>"
    using assms by (intro concat_axis1_single) (auto simp: single_column_tables)
  have cs: "concat_axis1 ?ss =
     Inr \<lparr>columns = concat (map columns ?ss),
          rows = map (\<lambda>k. (k, map (\<lambda>df. table_cell df k) ?ss))
                   (remdups (concat (map (\<lambda>df. map fst (rows df)) ?ss)))\<rparr>"
    using assms by (intro concat_axis1_single) (auto simp: single_column_tables)
  have lp: "length (concat (map columns ?ps)) = length caches"
    using concat_columns[of ?ps] by (simp add: single_column_tables)
  have ls: "length (concat (map columns ?ss)) = length caches"
    using concat_columns[of ?ss] by (simp add: single_column_tables)
  show ?thesis
    unfolding init_def Let_def ps ss
    using lp ls by (simp only: cp cs sum.case) (simp add: set_columns_def o_def)
qed


section \<open>Lookups\<close>

lemma map_of_level:
  "map_of (map (\<lambda>((g', n), s). (n, s)) (filter (\<lambda>((g', n), s). g' = g) xs)) n = map_of xs (g, n)"
  by (induction xs) auto

lemma get_step_result_row:
  "get_step_result self i n =
     (case map_of (rows (step_results self)) (i, n) of
        Some s \<Rightarrow> s
      | None \<Rightarrow> replicate (length (columns (step_results self))) (Some ''NO''))"
proof (cases "filter (\<lambda>((g', n), s). g' = i) (rows (step_results self))")
  case Nil
  have "map_of (rows (step_results self)) (i, n) = None"
    using map_of_level[of i "rows (step_results self)" n] by (simp add: Nil)
  then show ?thesis by (simp add: get_step_result_def loc_level_def Nil)
next
  case (Cons x xs)
  show ?thesis
    using map_of_level[of i "rows (step_results self)" n]
    by (simp add: get_step_result_def loc_level_def loc_def Cons split: option.splits)
qed

lemma get_property_result_row:
  "get_property_result self i =
     (case map_of (rows (property_results self)) i of
        Some s \<Rightarrow> s
      | None \<Rightarrow> replicate (length (columns (property_results self))) (Some ''NO''))"
  by (simp add: get_property_result_def loc_def split: option.splits)


section \<open>The exported tree\<close>

lemma loops_append:
  "generate_json_tree self p = generate_json_tree self p"
  "steps_loop self i ss acc = acc @ concat (map (step_children self i) ss)"
  "child_loop self cs acc = acc @ map (generate_json_tree self) cs"
  by (induction self p and self i ss acc and self cs acc
      rule: generate_json_tree_steps_loop_child_loop.induct)
     (simp_all add: step_children_def)

lemma generate_json_tree_children:
  "generate_json_tree self p =
     PropertyNode (gp_id p) (gp_name p) False (get_property_result self (gp_id p))
       (concat (map (step_children self (gp_id p)) (steps p)))"
  by (cases p) (simp add: loops_append(2))

lemma all_disabled:
  "list_all (\<lambda>n. \<not> enabled n) (nodes (generate_json_tree self p))"
  "list_all (\<lambda>c. list_all (\<lambda>n. \<not> enabled n) (nodes c)) acc \<Longrightarrow>
     list_all (\<lambda>c. list_all (\<lambda>n. \<not> enabled n) (nodes c)) (steps_loop self i ss acc)"
  "list_all (\<lambda>c. list_all (\<lambda>n. \<not> enabled n) (nodes c)) acc \<Longrightarrow>
     list_all (\<lambda>c. list_all (\<lambda>n. \<not> enabled n) (nodes c)) (child_loop self cs acc)"
  by (induction self p and self i ss acc and self cs acc
      rule: generate_json_tree_steps_loop_child_loop.induct)
     (simp_all add: list_all_iff)

lemma enabled_False:
  "map enabled (nodes (generate_json_tree self p)) =
     replicate (length (nodes (generate_json_tree self p))) False"
  using all_disabled(1)[of self p]
  by (simp add: list_all_iff map_replicate_const[symmetric])


section \<open>The store\<close>

text \<open>
  The objects of a cache that reads as a value keep their content when the store grows or is
  written elsewhere; the copy lies in the new part of the store, and the flush writes to the
  two dicts of the copy only.
\<close>

lemma lookup_Some: "lookup h a = Some x \<longleftrightarrow> a < length h \<and> h ! a = x"
  by (auto simp: lookup_def)

lemma lookup_append: "lookup h a = Some x \<Longrightarrow> lookup (h @ zs) a = Some x"
  by (auto simp: lookup_def nth_append)

lemma lookup_end: "lookup (h @ x # zs) (length h) = Some x"
  by (simp add: lookup_def)

lemma lookup_update:
  "lookup (h[x := v]) a = (if a = x \<and> x < length h then Some v else lookup h a)"
  by (auto simp: lookup_def)

lemma read_inner_append:
  "read_inner_dicts h refs = Some ds \<Longrightarrow> read_inner_dicts (h @ zs) refs = Some ds"
proof (induction refs arbitrary: ds)
  case Nil
  then show ?case by simp
next
  case (Cons r refs)
  obtain k a where r: "r = (k, a)" by (cases r)
  from Cons.prems obtain d ds' where
    d: "lookup h a = Some (Inner_dict d)" and ds': "read_inner_dicts h refs = Some ds'"
    and ds: "ds = (k, d) # ds'"
    by (auto simp: r split: option.splits obj.splits)
  from Cons.IH[OF ds'] lookup_append[OF d] show ?case by (simp add: r ds)
qed

lemma read_inner_types:
  "read_inner_dicts h refs = Some ds \<Longrightarrow> x \<in> snd ` set refs \<Longrightarrow>
     \<exists>d. lookup h x = Some (Inner_dict d)"
proof (induction refs arbitrary: ds)
  case Nil
  then show ?case by simp
next
  case (Cons r refs)
  obtain k a where r: "r = (k, a)" by (cases r)
  from Cons.prems(1) obtain d ds' where
    d: "lookup h a = Some (Inner_dict d)" and ds': "read_inner_dicts h refs = Some ds'"
    by (auto simp: r split: option.splits obj.splits)
  from Cons.prems(2) have "x = a \<or> x \<in> snd ` set refs" by (auto simp: r)
  then show ?case using d Cons.IH[OF ds'] by auto
qed

lemma read_inner_update:
  "read_inner_dicts h refs = Some ds \<Longrightarrow> x \<notin> snd ` set refs \<Longrightarrow>
     read_inner_dicts (h[x := v]) refs = Some ds"
proof (induction refs arbitrary: ds)
  case Nil
  then show ?case by simp
next
  case (Cons r refs)
  obtain k a where r: "r = (k, a)" by (cases r)
  from Cons.prems(1) obtain d ds' where
    d: "lookup h a = Some (Inner_dict d)" and ds': "read_inner_dicts h refs = Some ds'"
    and ds: "ds = (k, d) # ds'"
    by (auto simp: r split: option.splits obj.splits)
  from Cons.prems(2) have x: "x \<noteq> a" "x \<notin> snd ` set refs" by (auto simp: r)
  from Cons.IH[OF ds' x(2)] d x(1) show ?case by (simp add: r ds lookup_update)
qed

lemma read_inner_keys:
  "read_inner_dicts h refs = Some ds \<Longrightarrow> map fst ds = map fst refs"
proof (induction refs arbitrary: ds)
  case Nil
  then show ?case by simp
next
  case (Cons r refs)
  obtain k a where r: "r = (k, a)" by (cases r)
  from Cons.prems obtain d ds' where
    ds': "read_inner_dicts h refs = Some ds'" and ds: "ds = (k, d) # ds'"
    by (auto simp: r split: option.splits obj.splits)
  from Cons.IH[OF ds'] show ?case by (simp add: r ds)
qed

lemma read_inner_pop:
  "read_inner_dicts h refs = Some ds \<Longrightarrow>
     read_inner_dicts h (dict_pop i refs) = Some (dict_pop i ds)"
proof (induction refs arbitrary: ds)
  case Nil
  then show ?case by (simp add: dict_pop_def)
next
  case (Cons r refs)
  obtain k a where r: "r = (k, a)" by (cases r)
  from Cons.prems obtain d ds' where
    d: "lookup h a = Some (Inner_dict d)" and ds': "read_inner_dicts h refs = Some ds'"
    and ds: "ds = (k, d) # ds'"
    by (auto simp: r split: option.splits obj.splits)
  from Cons.IH[OF ds'] d show ?case by (simp add: r ds dict_pop_def)
qed

lemma copy_inner:
  "read_inner_dicts h refs = Some ds \<Longrightarrow>
     \<exists>zs refs'. copy_inner_dicts h refs = Some (h @ zs, refs') \<and>
                read_inner_dicts (h @ zs) refs' = Some ds \<and>
                (\<forall>x \<in> snd ` set refs'. length h \<le> x)"
proof (induction refs arbitrary: h ds)
  case Nil
  then show ?case by simp
next
  case (Cons r refs)
  obtain k a where r: "r = (k, a)" by (cases r)
  from Cons.prems obtain d ds' where
    d: "lookup h a = Some (Inner_dict d)" and ds': "read_inner_dicts h refs = Some ds'"
    and ds: "ds = (k, d) # ds'"
    by (auto simp: r split: option.splits obj.splits)
  let ?h1 = "h @ [Inner_dict d]"
  from read_inner_append[OF ds'] have "read_inner_dicts ?h1 refs = Some ds'" .
  from Cons.IH[OF this] obtain zs refs' where
    c: "copy_inner_dicts ?h1 refs = Some (?h1 @ zs, refs')"
    and rd: "read_inner_dicts (?h1 @ zs) refs' = Some ds'"
    and fr: "\<forall>x \<in> snd ` set refs'. length ?h1 \<le> x"
    by blast
  have "copy_inner_dicts h (r # refs) = Some (h @ (Inner_dict d # zs), (k, length h) # refs')"
    using d c by (simp add: r alloc_def)
  moreover have "read_inner_dicts (h @ (Inner_dict d # zs)) ((k, length h) # refs') = Some ds"
    using rd by (simp add: ds lookup_end)
  moreover have "\<forall>x \<in> snd ` set ((k, length h) # refs'). length h \<le> x"
    using fr by auto
  ultimately show ?case by blast
qed

lemma read_cacheE:
  assumes "read_cache h a = Some c"
  obtains n p s pd refs sd where
    "lookup h a = Some (Cache_obj n p s)" "lookup h p = Some (Property_dict pd)"
    "lookup h s = Some (Step_dict refs)" "read_inner_dicts h refs = Some sd"
    "c = \<lparr>sample_name = n, property_assignments = pd, step_assignments = sd\<rparr>"
  using assms unfolding read_cache_def
  by (auto split: option.splits obj.splits)

lemma read_cacheI:
  assumes "lookup h a = Some (Cache_obj n p s)" "lookup h p = Some (Property_dict pd)"
    "lookup h s = Some (Step_dict refs)" "read_inner_dicts h refs = Some sd"
  shows "read_cache h a =
           Some \<lparr>sample_name = n, property_assignments = pd, step_assignments = sd\<rparr>"
  using assms by (simp add: read_cache_def)

lemma cache_addrs_eq:
  assumes "lookup h a = Some (Cache_obj n p s)" "lookup h s = Some (Step_dict refs)"
  shows "cache_addrs h a = a # p # s # map snd refs"
  using assms by (simp add: cache_addrs_def)

lemma read_cache_append:
  assumes "read_cache h a = Some c"
  shows "read_cache (h @ zs) a = Some c"
proof -
  from assms obtain n p s pd refs sd where
    o: "lookup h a = Some (Cache_obj n p s)" "lookup h p = Some (Property_dict pd)"
    "lookup h s = Some (Step_dict refs)" "read_inner_dicts h refs = Some sd"
    and c: "c = \<lparr>sample_name = n, property_assignments = pd, step_assignments = sd\<rparr>"
    by (rule read_cacheE)
  show ?thesis
    unfolding c
    by (rule read_cacheI[OF lookup_append[OF o(1)] lookup_append[OF o(2)]
          lookup_append[OF o(3)] read_inner_append[OF o(4)]])
qed

lemma read_cache_prefix:
  assumes "read_cache h a = Some c" "take (length h) h' = h"
  shows "read_cache h' a = Some c"
proof -
  have "h' = h @ drop (length h) h'"
    using append_take_drop_id[of "length h" h'] assms(2) by simp
  then show ?thesis using read_cache_append[OF assms(1)] by metis
qed

lemma identifiers_at:
  assumes "read_cache h a = Some c"
  shows "genome_property_identifiers_at h a = Some (genome_property_identifiers c)"
proof -
  from assms obtain n p s pd refs sd where
    o: "lookup h a = Some (Cache_obj n p s)" "lookup h p = Some (Property_dict pd)"
    "lookup h s = Some (Step_dict refs)" "read_inner_dicts h refs = Some sd"
    and c: "c = \<lparr>sample_name = n, property_assignments = pd, step_assignments = sd\<rparr>"
    by (rule read_cacheE)
  from read_inner_keys[OF o(4)] o show ?thesis
    by (simp add: genome_property_identifiers_at_def genome_property_identifiers_def c)
qed

lemma deepcopy_fresh:
  assumes "read_cache h a = Some c"
  shows "\<exists>zs a'. deepcopy h a = Some (h @ zs, a') \<and> read_cache (h @ zs) a' = Some c \<and>
           (\<forall>x \<in> set (cache_addrs (h @ zs) a'). length h \<le> x)"
proof -
  from assms obtain n p s pd refs sd where
    o: "lookup h a = Some (Cache_obj n p s)" "lookup h p = Some (Property_dict pd)"
    "lookup h s = Some (Step_dict refs)" "read_inner_dicts h refs = Some sd"
    and c: "c = \<lparr>sample_name = n, property_assignments = pd, step_assignments = sd\<rparr>"
    by (rule read_cacheE)
  let ?h1 = "h @ [Property_dict pd]"
  from copy_inner[OF read_inner_append[OF o(4), of "[Property_dict pd]"]]
  obtain zs1 refs' where
    cp: "copy_inner_dicts ?h1 refs = Some (?h1 @ zs1, refs')"
    and rd: "read_inner_dicts (?h1 @ zs1) refs' = Some sd"
    and fr: "\<forall>x \<in> snd ` set refs'. length ?h1 \<le> x"
    by blast
  let ?h2 = "?h1 @ zs1"
  let ?s' = "length ?h2"
  let ?a' = "Suc (length ?h2)"
  let ?zs = "Property_dict pd # zs1 @ [Step_dict refs', Cache_obj n (length h) ?s']"
  have h4: "h @ ?zs = ?h2 @ [Step_dict refs', Cache_obj n (length h) ?s']" by simp
  have d: "deepcopy h a = Some (h @ ?zs, ?a')"
    using o cp by (simp add: deepcopy_def alloc_def)
  have la: "lookup (h @ ?zs) ?a' = Some (Cache_obj n (length h) ?s')"
    by (simp add: lookup_def nth_append)
  have lp: "lookup (h @ ?zs) (length h) = Some (Property_dict pd)"
    by (rule lookup_end)
  have ls: "lookup (h @ ?zs) ?s' = Some (Step_dict refs')"
    unfolding h4 by (rule lookup_end)
  have ri: "read_inner_dicts (h @ ?zs) refs' = Some sd"
    unfolding h4 by (rule read_inner_append[OF rd])
  have r: "read_cache (h @ ?zs) ?a' = Some c"
    unfolding c by (rule read_cacheI[OF la lp ls ri])
  have "\<forall>x \<in> set (cache_addrs (h @ ?zs) ?a'). length h \<le> x"
    unfolding cache_addrs_eq[OF la ls] using fr by auto
  with d r show ?thesis by blast
qed

lemma flush_at_fresh:
  assumes "read_cache h a = Some c" and "\<forall>x \<in> set (cache_addrs h a). m \<le> x"
  shows "\<exists>h'. flush_property_from_cache_at i a h = Some h' \<and>
           read_cache h' a = Some (flush_property_from_cache i c) \<and>
           take m h' = take m h \<and>
           (\<forall>x \<in> set (cache_addrs h' a). m \<le> x)"
proof -
  from assms(1) obtain n p s pd refs sd where
    o: "lookup h a = Some (Cache_obj n p s)" "lookup h p = Some (Property_dict pd)"
    "lookup h s = Some (Step_dict refs)" "read_inner_dicts h refs = Some sd"
    and c: "c = \<lparr>sample_name = n, property_assignments = pd, step_assignments = sd\<rparr>"
    by (rule read_cacheE)
  from o have ne: "p \<noteq> s" "a \<noteq> p" "a \<noteq> s" by auto
  from o have len: "p < length h" "s < length h" by (auto simp: lookup_Some)
  have inner: "p \<notin> snd ` set refs" "s \<notin> snd ` set refs"
    using read_inner_types[OF o(4)] o(2,3) by fastforce+
  let ?h' = "h[p := Property_dict (dict_pop i pd), s := Step_dict (dict_pop i refs)]"
  have f: "flush_property_from_cache_at i a h = Some ?h'"
    using o ne by (simp add: flush_property_from_cache_at_def lookup_update Let_def)
  have la: "lookup ?h' a = Some (Cache_obj n p s)"
    using o(1) ne by (simp add: lookup_update)
  have lp: "lookup ?h' p = Some (Property_dict (dict_pop i pd))"
    using ne len by (simp add: lookup_update)
  have ls: "lookup ?h' s = Some (Step_dict (dict_pop i refs))"
    using len by (simp add: lookup_update)
  have sub: "snd ` set (dict_pop i refs) \<subseteq> snd ` set refs"
    by (auto simp: dict_pop_def)
  have ri: "read_inner_dicts ?h' (dict_pop i refs) = Some (dict_pop i sd)"
    using inner sub
    by (intro read_inner_update read_inner_pop[OF o(4)]) auto
  have r: "read_cache ?h' a = Some (flush_property_from_cache i c)"
    using read_cacheI[OF la lp ls ri] by (simp add: c flush_property_from_cache_def)
  from assms(2) have m: "m \<le> a" "m \<le> p" "m \<le> s" "\<forall>x \<in> snd ` set refs. m \<le> x"
    unfolding cache_addrs_eq[OF o(1) o(3)] by auto
  then have t: "take m ?h' = take m h" by simp
  have "\<forall>x \<in> set (cache_addrs ?h' a). m \<le> x"
    unfolding cache_addrs_eq[OF la ls] using m by (auto simp: dict_pop_def)
  with f r t show ?thesis by blast
qed

lemma flush_each_fresh:
  assumes "read_cache h a = Some c" and "\<forall>x \<in> set (cache_addrs h a). m \<le> x"
  shows "\<exists>h'. flush_each ids a h = Some h' \<and>
           read_cache h' a = Some (fold flush_property_from_cache ids c) \<and>
           take m h' = take m h \<and>
           (\<forall>x \<in> set (cache_addrs h' a). m \<le> x)"
  using assms
proof (induction ids arbitrary: h c)
  case Nil
  then show ?case by simp
next
  case (Cons i ids)
  from flush_at_fresh[OF Cons.prems, of i] obtain h1 where
    1: "flush_property_from_cache_at i a h = Some h1"
    "read_cache h1 a = Some (flush_property_from_cache i c)"
    "take m h1 = take m h" "\<forall>x \<in> set (cache_addrs h1 a). m \<le> x"
    by blast
  from Cons.IH[OF 1(2) 1(4)] obtain h2 where
    2: "flush_each ids a h1 = Some h2"
    "read_cache h2 a = Some (fold flush_property_from_cache ids (flush_property_from_cache i c))"
    "take m h2 = take m h1" "\<forall>x \<in> set (cache_addrs h2 a). m \<le> x"
    by blast
  from 1 2 show ?case by simp
qed

lemma synchronized_at:
  assumes "read_cache h a = Some c"
  shows "\<exists>h' a'. create_synchronized_assignment_cache_at h a t = Some (h', a') \<and>
           take (length h) h' = h \<and>
           read_cache h' a' = Some (create_synchronized_assignment_cache c t) \<and>
           (\<forall>x \<in> set (cache_addrs h' a'). length h \<le> x)"
proof -
  let ?U = "symmetric_difference (remdups (map gp_id (tree_properties t)))
              (remdups (genome_property_identifiers c))"
  from deepcopy_fresh[OF assms] obtain zs a' where
    d: "deepcopy h a = Some (h @ zs, a')" "read_cache (h @ zs) a' = Some c"
    "\<forall>x \<in> set (cache_addrs (h @ zs) a'). length h \<le> x"
    by blast
  from flush_each_fresh[OF d(2) d(3), of ?U] obtain h' where
    f: "flush_each ?U a' (h @ zs) = Some h'"
    "read_cache h' a' = Some (fold flush_property_from_cache ?U c)"
    "take (length h) h' = take (length h) (h @ zs)"
    "\<forall>x \<in> set (cache_addrs h' a'). length h \<le> x"
    by blast
  have "create_synchronized_assignment_cache_at h a t = Some (h', a')"
    using d(1) f(1)
    by (simp add: create_synchronized_assignment_cache_at_def identifiers_at[OF assms] Let_def)
  moreover have "take (length h) h' = h" using f(3) by simp
  moreover have "read_cache h' a' = Some (create_synchronized_assignment_cache c t)"
    using f(2) by (simp add: create_synchronized_assignment_cache_def Let_def)
  ultimately show ?thesis using f(4) by blast
qed

lemma bcd_store_cache: "read_cache bcd_store 4 = Some bcd_cache"
  by (simp add: bcd_store_def bcd_cache_def read_cache_def lookup_def)

section \<open>The claims\<close>

subsection \<open>Example runs of the constructor\<close>

lemma init_Nil: "init [] t = Inl ValueError"
  by (simp add: init_def concat_axis1_def)

lemma init_Inr:
  assumes "init caches t = Inr self"
  shows "caches \<noteq> []"
  using assms by (auto simp: init_Nil)

lemma map_of_labelled:
  "map_of (map (\<lambda>k. (k, f k)) ks) k = (if k \<in> set ks then Some (f k) else None)"
  by (induction ks) auto

lemma example_init:
  "init [example_cache_A, example_cache_B] example_tree = Inr example_results"
  by (simp add: init_def example_tree_def example_root_def example_leaf_def
      example_cache_A_def example_cache_B_def example_results_def Let_def
      create_assignment_tables_def create_synchronized_assignment_cache_def
      bootstrap_assignments_def genome_property_identifiers_def symmetric_difference_def
      flush_property_from_cache_def dict_pop_def get_property_assignment_def concat_axis1_def
      set_columns_def reindex_def create_step_table_rows_def)

lemma example_table_A:
  "sample_property_table example_tree example_cache_A =
     \<lparr>columns = [''Property_Result''],
      rows = [(''R'', [Some ''YES'']), (''X'', [Some ''YES'']), (''Z'', [Some ''NO''])]\<rparr>"
  by (simp add: sample_property_table_def example_tree_def example_root_def example_leaf_def
      example_cache_A_def Let_def
      create_assignment_tables_def create_synchronized_assignment_cache_def
      bootstrap_assignments_def genome_property_identifiers_def symmetric_difference_def
      flush_property_from_cache_def dict_pop_def get_property_assignment_def)

lemma example_table_B:
  "sample_property_table example_tree example_cache_B =
     \<lparr>columns = [''Property_Result''],
      rows = [(''R'', [Some ''YES'']), (''Y'', [Some ''NO''])]\<rparr>"
  by (simp add: sample_property_table_def example_tree_def example_root_def example_leaf_def
      example_cache_B_def Let_def
      create_assignment_tables_def create_synchronized_assignment_cache_def
      bootstrap_assignments_def genome_property_identifiers_def symmetric_difference_def
      flush_property_from_cache_def dict_pop_def get_property_assignment_def)

lemma example_init_swapped:
  "init [example_cache_B, example_cache_A] example_tree = Inr example_results_swapped"
  by (simp add: init_def example_tree_def example_root_def example_leaf_def
      example_cache_A_def example_cache_B_def example_results_swapped_def Let_def
      create_assignment_tables_def create_synchronized_assignment_cache_def
      bootstrap_assignments_def genome_property_identifiers_def symmetric_difference_def
      flush_property_from_cache_def dict_pop_def get_property_assignment_def concat_axis1_def
      set_columns_def reindex_def create_step_table_rows_def)

lemma init_distinct:
  assumes "init caches t = Inr self"
  shows "distinct (map fst (rows (property_results self)))"
    and "distinct (map fst (rows (step_results self)))"
proof -
  from assms have ne: "caches \<noteq> []" by (rule init_Inr)
  from assms show "distinct (map fst (rows (property_results self)))"
    unfolding init_tables[OF ne] by (auto simp: o_def)
  from assms show "distinct (map fst (rows (step_results self)))"
    unfolding init_tables[OF ne] by (auto simp: o_def)
qed

subsection \<open>The synchronised cache\<close>

text \<open>
  C1.  The identifiers of the synchronised cache are exactly those in both the cache and the
  tree: the cache keeps, unchanged, the entries whose identifier the tree has, and no entry is
  left for an identifier of the symmetric difference.  With the tree \<open>{A, B, C}\<close> and the cache
  \<open>{B, C, D}\<close> the synchronised cache holds \<open>{B, C}\<close>.
\<close>

theorem synchronized_cache_entries:
  "set (genome_property_identifiers (create_synchronized_assignment_cache c t)) =
     set (genome_property_identifiers c) \<inter> gp_id ` set (tree_properties t) \<and>
   create_synchronized_assignment_cache c t =
     c\<lparr>property_assignments :=
         filter (\<lambda>(k, v). k \<in> gp_id ` set (tree_properties t)) (property_assignments c),
       step_assignments :=
         filter (\<lambda>(k, v). k \<in> gp_id ` set (tree_properties t)) (step_assignments c)\<rparr> \<and>
   (\<forall>i \<in> set (symmetric_difference (remdups (map gp_id (tree_properties t)))
                 (remdups (genome_property_identifiers c))).
      map_of (property_assignments (create_synchronized_assignment_cache c t)) i = None \<and>
      map_of (step_assignments (create_synchronized_assignment_cache c t)) i = None)"
proof (intro conjI ballI)
  show "set (genome_property_identifiers (create_synchronized_assignment_cache c t)) =
     set (genome_property_identifiers c) \<inter> gp_id ` set (tree_properties t)"
    by (rule synchronized_identifiers)
  show "create_synchronized_assignment_cache c t =
     c\<lparr>property_assignments :=
         filter (\<lambda>(k, v). k \<in> gp_id ` set (tree_properties t)) (property_assignments c),
       step_assignments :=
         filter (\<lambda>(k, v). k \<in> gp_id ` set (tree_properties t)) (step_assignments c)\<rparr>"
    by (rule synchronized_cache)
next
  fix i
  assume "i \<in> set (symmetric_difference (remdups (map gp_id (tree_properties t)))
                 (remdups (genome_property_identifiers c)))"
  then have i: "i \<in> gp_id ` set (tree_properties t) - set (genome_property_identifiers c) \<or>
             i \<in> set (genome_property_identifiers c) - gp_id ` set (tree_properties t)"
    by (simp add: set_symmetric_difference)
  have 1: "i \<notin> set (genome_property_identifiers c) \<Longrightarrow> map_of (property_assignments c) i = None"
    by (simp add: genome_property_identifiers_def map_of_eq_None_iff)
  have 2: "i \<notin> set (genome_property_identifiers c) \<Longrightarrow> map_of (step_assignments c) i = None"
    by (simp add: genome_property_identifiers_def map_of_eq_None_iff)
  from i 1 show "map_of (property_assignments (create_synchronized_assignment_cache c t)) i = None"
    unfolding synchronized_cache by (auto simp: map_of_filter_keys)
  from i 2 show "map_of (step_assignments (create_synchronized_assignment_cache c t)) i = None"
    unfolding synchronized_cache by (auto simp: map_of_filter_keys)
qed

theorem synchronized_cache_entries_witness:
  "set (genome_property_identifiers (create_synchronized_assignment_cache bcd_cache abc_tree)) =
     {''B'', ''C''} \<and>
   create_synchronized_assignment_cache bcd_cache abc_tree =
     \<lparr>sample_name = ''S'',
      property_assignments = [(''B'', ''YES''), (''C'', ''NO'')],
      step_assignments = [(''B'', [(1, ''YES'')])]\<rparr> \<and>
   symmetric_difference (remdups (map gp_id (tree_properties abc_tree)))
      (remdups (genome_property_identifiers bcd_cache)) = [''A'', ''D''] \<and>
   map_of (property_assignments (create_synchronized_assignment_cache bcd_cache abc_tree)) ''D''
     = None \<and>
   map_of (step_assignments (create_synchronized_assignment_cache bcd_cache abc_tree)) ''D''
     = None"
proof -
  note entries = synchronized_cache_entries[of bcd_cache abc_tree]
  have tree: "gp_id ` set (tree_properties abc_tree) = {''A'', ''B'', ''C''}"
    by (simp add: abc_tree_def)
  have ids: "set (genome_property_identifiers bcd_cache) = {''B'', ''C'', ''D''}"
    by (auto simp: bcd_cache_def genome_property_identifiers_def)
  have sd: "symmetric_difference (remdups (map gp_id (tree_properties abc_tree)))
      (remdups (genome_property_identifiers bcd_cache)) = [''A'', ''D'']"
    by (simp add: symmetric_difference_def abc_tree_def bcd_cache_def
        genome_property_identifiers_def)
  have 1: "set (genome_property_identifiers
                 (create_synchronized_assignment_cache bcd_cache abc_tree)) = {''B'', ''C''}"
    unfolding entries[THEN conjunct1] tree ids by auto
  have 2: "create_synchronized_assignment_cache bcd_cache abc_tree =
     \<lparr>sample_name = ''S'',
      property_assignments = [(''B'', ''YES''), (''C'', ''NO'')],
      step_assignments = [(''B'', [(1, ''YES'')])]\<rparr>"
    unfolding entries[THEN conjunct2, THEN conjunct1] tree
    by (simp add: bcd_cache_def)
  have 3: "map_of (property_assignments
                    (create_synchronized_assignment_cache bcd_cache abc_tree)) ''D'' = None \<and>
           map_of (step_assignments
                    (create_synchronized_assignment_cache bcd_cache abc_tree)) ''D'' = None"
    using entries[THEN conjunct2, THEN conjunct2] unfolding sd by simp
  from 1 2 sd 3 show ?thesis by (simp only: simp_thms)
qed

subsection \<open>The combined tables\<close>

text \<open>
  C2 (as stated) fails: on the example the cache of sample \<open>B\<close> has no result for \<open>X\<close>, and the
  combined property table holds a missing value there, not \<open>NO\<close>; the lookup returns the row
  with the missing value.
\<close>

theorem combined_table_default_counterexample:
  "init [example_cache_A, example_cache_B] example_tree = Inr example_results \<and>
   map_of (rows (sample_property_table example_tree example_cache_B)) ''X'' = None \<and>
   map_of (rows (property_results example_results)) ''X'' = Some [Some ''YES'', None] \<and>
   get_property_result example_results ''X'' = [Some ''YES'', None] \<and>
   [Some ''YES'', None] \<noteq> [Some ''YES'', Some ''NO'']"
  by (simp add: example_init example_table_B get_property_result_row)
     (simp add: example_results_def)

text \<open>
  C2 (amended).  In the combined tables of the constructor a label is a row exactly if it is a
  row of some sample's table, and the row holds, sample by sample, the value of that sample's
  table, a missing value where the sample's table has no such row.
\<close>

theorem combined_table_cells:
  assumes "init caches t = Inr self"
  shows "map_of (rows (property_results self)) k =
           (if \<exists>c \<in> set caches. k \<in> fst ` set (rows (sample_property_table t c))
            then Some (map (\<lambda>c. table_cell (sample_property_table t c) k) caches) else None) \<and>
         map_of (rows (step_results self)) ks =
           (if \<exists>c \<in> set caches. ks \<in> fst ` set (rows (sample_step_table t c))
            then Some (map (\<lambda>c. table_cell (sample_step_table t c) ks) caches) else None)"
proof -
  from assms have ne: "caches \<noteq> []" by (rule init_Inr)
  from assms have self: "self =
     \<lparr>tree = t, sample_names = map sample_name caches,
          property_results =
            \<lparr>columns = map sample_name caches,
             rows = map (\<lambda>k. (k, map (\<lambda>c. table_cell (sample_property_table t c) k) caches))
                      (remdups (concat (map (\<lambda>c. map fst (rows (sample_property_table t c))) caches)))\<rparr>,
          step_results =
            \<lparr>columns = map sample_name caches,
             rows = map (\<lambda>k. (k, map (\<lambda>c. table_cell (sample_step_table t c) k) caches))
                      (remdups (concat (map (\<lambda>c. map fst (rows (sample_step_table t c))) caches)))\<rparr>\<rparr>"
    unfolding init_tables[OF ne] by simp
  show ?thesis
    by (subst self, subst self) (auto simp: map_of_labelled)
qed

theorem combined_table_cells_witness:
  "init [example_cache_A, example_cache_B] example_tree = Inr example_results \<and>
   map_of (rows (property_results example_results)) ''X'' = Some [Some ''YES'', None] \<and>
   map_of (rows (property_results example_results)) ''Q'' = None"
proof -
  have x: "map_of (rows (property_results example_results)) ''X'' = Some [Some ''YES'', None]"
    using combined_table_cells[OF example_init, of "''X''"]
    by (simp add: example_table_A example_table_B table_cell_def)
  have q: "map_of (rows (property_results example_results)) ''Q'' = None"
    using combined_table_cells[OF example_init, of "''Q''"]
    by (simp add: example_table_A example_table_B table_cell_def)
  from example_init x q show ?thesis by simp
qed

text \<open>
  C7.  For one or more caches the constructor returns a result whose sample names, and the
  column labels of both tables, are the sample names of the caches in the order given.
\<close>

theorem init_column_order:
  assumes "caches \<noteq> []"
  shows "\<exists>self. init caches t = Inr self \<and>
           sample_names self = map sample_name caches \<and>
           columns (property_results self) = map sample_name caches \<and>
           columns (step_results self) = map sample_name caches"
  unfolding init_tables[OF assms] by simp

theorem init_column_order_witness:
  "[example_cache_A, example_cache_B] \<noteq> [] \<and>
   (\<exists>self. init [example_cache_A, example_cache_B] example_tree = Inr self \<and>
           sample_names self = [''A'', ''B''] \<and>
           columns (property_results self) = [''A'', ''B''] \<and>
           columns (step_results self) = [''A'', ''B''])"
  using init_column_order[of "[example_cache_A, example_cache_B]" example_tree]
  by (simp add: example_cache_A_def example_cache_B_def)

subsection \<open>Lookups\<close>

text \<open>
  C3.  For the result of the constructor, \<open>get_property_result\<close> and \<open>get_step_result\<close> return
  the row of the identifier (of the identifier and step number) when the table has it, and
  otherwise \<open>NO\<close> once per sample; neither raises.
\<close>

theorem lookup_results:
  assumes "init caches t = Inr self"
  shows "get_property_result self i =
           (case map_of (rows (property_results self)) i of
              Some s \<Rightarrow> s
            | None \<Rightarrow> replicate (length caches) (Some ''NO'')) \<and>
         get_step_result self i n =
           (case map_of (rows (step_results self)) (i, n) of
              Some s \<Rightarrow> s
            | None \<Rightarrow> replicate (length caches) (Some ''NO''))"
proof -
  from assms have ne: "caches \<noteq> []" by (rule init_Inr)
  from assms have "length (columns (property_results self)) = length caches"
    "length (columns (step_results self)) = length caches"
    unfolding init_tables[OF ne] by auto
  then show ?thesis
    by (simp add: get_property_result_row get_step_result_row split: option.splits)
qed

theorem lookup_results_witness:
  "init [example_cache_A, example_cache_B] example_tree = Inr example_results \<and>
   get_property_result example_results ''Q'' = [Some ''NO'', Some ''NO''] \<and>
   get_property_result example_results ''Z'' = [Some ''NO'', None] \<and>
   get_step_result example_results ''X'' 1 = [Some ''NO'', Some ''NO'']"
proof -
  note l = lookup_results[OF example_init]
  have "get_property_result example_results ''Q'' = [Some ''NO'', Some ''NO'']"
    using l[of "''Q''" 1] by (simp add: example_results_def)
  moreover have "get_property_result example_results ''Z'' = [Some ''NO'', None]"
    using l[of "''Z''" 1] by (simp add: example_results_def)
  moreover have "get_step_result example_results ''X'' 1 = [Some ''NO'', Some ''NO'']"
    using l[of "''X''" 1] by (simp add: example_results_def)
  ultimately show ?thesis using example_init by simp
qed

subsection \<open>The filters on tables with missing values\<close>

text \<open>
  C4 (as stated) fails: in the example table the row \<open>X\<close> holds \<open>YES\<close> for sample \<open>A\<close> and a
  missing value for sample \<open>B\<close>; its values are not all identical, and the differential filter
  drops it.
\<close>

theorem differing_results_counterexample:
  "init [example_cache_A, example_cache_B] example_tree = Inr example_results \<and>
   map_of (rows (property_results example_results)) ''X'' = Some [Some ''YES'', None] \<and>
   \<not> all_identical [Some ''YES'', None] \<and>
   differing_property_results example_results = Inr \<lparr>columns = [''A'', ''B''], rows = []\<rparr>"
  by (simp add: example_init all_identical_def differing_property_results_def)
     (auto simp: example_results_def remove_results_with_shared_assignments_def Let_def
        transpose_def transpose_back_def nunique_def drop_columns_def)

text \<open>
  C5.  The supported-only filter is to drop exactly the rows whose values are all \<open>NO\<close>.  The
  code counts the distinct values without the missing ones (\<open>nunique\<close>) and then tests the
  first distinct value with the missing ones (\<open>unique()[0]\<close>).  On the example the rows \<open>Z\<close>
  and \<open>Y\<close> hold one \<open>NO\<close> and one missing value each: with the samples in the order \<open>A\<close>, \<open>B\<close>
  the filter drops \<open>Z\<close> and keeps \<open>Y\<close>, in the order \<open>B\<close>, \<open>A\<close> it drops \<open>Y\<close> and keeps \<open>Z\<close>.
\<close>

theorem supported_results_sample_order:
  "init [example_cache_A, example_cache_B] example_tree = Inr example_results \<and>
   rows (property_results example_results) =
     [(''X'', [Some ''YES'', None]), (''Z'', [Some ''NO'', None]),
      (''R'', [Some ''YES'', Some ''YES'']), (''Y'', [None, Some ''NO''])] \<and>
   supported_property_results example_results =
     Inr \<lparr>columns = [''A'', ''B''],
          rows = [(''X'', [Some ''YES'', None]), (''R'', [Some ''YES'', Some ''YES'']),
                  (''Y'', [None, Some ''NO''])]\<rparr> \<and>
   init [example_cache_B, example_cache_A] example_tree = Inr example_results_swapped \<and>
   rows (property_results example_results_swapped) =
     [(''Y'', [Some ''NO'', None]), (''R'', [Some ''YES'', Some ''YES'']),
      (''X'', [None, Some ''YES'']), (''Z'', [None, Some ''NO''])] \<and>
   supported_property_results example_results_swapped =
     Inr \<lparr>columns = [''B'', ''A''],
          rows = [(''R'', [Some ''YES'', Some ''YES'']), (''X'', [None, Some ''YES'']),
                  (''Z'', [None, Some ''NO''])]\<rparr>"
proof -
  have 1: "supported_property_results example_results =
     Inr \<lparr>columns = [''A'', ''B''],
          rows = [(''X'', [Some ''YES'', None]), (''R'', [Some ''YES'', Some ''YES'']),
                  (''Y'', [None, Some ''NO''])]\<rparr>"
    by (auto simp: supported_property_results_def example_results_def
        remove_results_with_shared_assignments_def Let_def
        transpose_def transpose_back_def nunique_def drop_columns_def unique_def)
  have 2: "supported_property_results example_results_swapped =
     Inr \<lparr>columns = [''B'', ''A''],
          rows = [(''R'', [Some ''YES'', Some ''YES'']), (''X'', [None, Some ''YES'']),
                  (''Z'', [None, Some ''NO''])]\<rparr>"
    by (auto simp: supported_property_results_def example_results_swapped_def
        remove_results_with_shared_assignments_def Let_def
        transpose_def transpose_back_def nunique_def drop_columns_def unique_def)
  show ?thesis
    by (simp add: example_init example_init_swapped 1 2)
       (simp add: example_results_def example_results_swapped_def)
qed

subsection \<open>The exported tree\<close>

text \<open>
  C8.  The tree of a property carries its identifier, its name and its result vector; its
  children are, step by step, the trees of the child properties of the step, or for a step
  without child properties one leaf with the step's number, name and result vector.
\<close>

theorem generate_json_tree_structure:
  "generate_json_tree self p =
     PropertyNode (gp_id p) (gp_name p) False (get_property_result self (gp_id p))
       (concat (map (\<lambda>s. if genome_properties s \<noteq> []
                          then map (generate_json_tree self) (genome_properties s)
                          else [StepNode (number s) (step_name s) False
                                  (get_step_result self (gp_id p) (number s))])
                    (steps p)))"
proof -
  have "step_children self (gp_id p) =
        (\<lambda>s. if genome_properties s \<noteq> []
              then map (generate_json_tree self) (genome_properties s)
              else [StepNode (number s) (step_name s) False
                      (get_step_result self (gp_id p) (number s))])"
    by (rule ext) (simp only: step_children_def)
  then show ?thesis
    by (simp only: generate_json_tree_children[of self p])
qed

text \<open>
  C10.  Every node of the exported tree, property node or step leaf, has \<open>enabled = False\<close>;
  so has every node of the tree in \<open>to_json\<close>.
\<close>

theorem enabled_always_False:
  "map enabled (nodes (generate_json_tree self p)) =
     replicate (length (nodes (generate_json_tree self p))) False \<and>
   map enabled (nodes (snd (to_json self))) =
     replicate (length (nodes (snd (to_json self)))) False"
  unfolding to_json_def snd_conv
  by (intro conjI enabled_False)


subsection \<open>The input cache of the synchroniser\<close>

text \<open>
  C6.  Called on a store that holds a cache at an address, \<open>create_synchronized_assignment_cache\<close>
  returns; every object of the old store is unchanged, so the input cache reads as before,
  its property assignments, step assignments and identifiers included; the returned cache
  reads as the synchronised cache; all its objects are new, and writing any of them, or any
  other change of the store that keeps the old part, leaves the input cache as it was.
\<close>

theorem synchronized_copy_independent:
  assumes "read_cache h a = Some c"
  shows "\<exists>h' a'. create_synchronized_assignment_cache_at h a t = Some (h', a') \<and>
           take (length h) h' = h \<and>
           read_cache h' a = Some c \<and>
           genome_property_identifiers_at h' a = genome_property_identifiers_at h a \<and>
           read_cache h' a' = Some (create_synchronized_assignment_cache c t) \<and>
           (\<forall>x \<in> set (cache_addrs h' a'). length h \<le> x) \<and>
           (\<forall>x \<in> set (cache_addrs h' a'). \<forall>v. read_cache (h'[x := v]) a = Some c) \<and>
           (\<forall>h''. take (length h) h'' = h \<longrightarrow> read_cache h'' a = Some c)"
proof -
  from synchronized_at[OF assms, of t] obtain h' a' where
    s: "create_synchronized_assignment_cache_at h a t = Some (h', a')"
    "take (length h) h' = h"
    "read_cache h' a' = Some (create_synchronized_assignment_cache c t)"
    "\<forall>x \<in> set (cache_addrs h' a'). length h \<le> x"
    by blast
  have p: "\<forall>h''. take (length h) h'' = h \<longrightarrow> read_cache h'' a = Some c"
    using read_cache_prefix[OF assms] by blast
  have r: "read_cache h' a = Some c"
    using p s(2) by blast
  have i: "genome_property_identifiers_at h' a = genome_property_identifiers_at h a"
    by (simp add: identifiers_at[OF r] identifiers_at[OF assms])
  have u: "\<forall>x \<in> set (cache_addrs h' a'). \<forall>v. read_cache (h'[x := v]) a = Some c"
  proof (intro ballI allI)
    fix x v assume "x \<in> set (cache_addrs h' a')"
    with s(4) have "length h \<le> x" by blast
    then have "take (length h) (h'[x := v]) = h" using s(2) by simp
    with p show "read_cache (h'[x := v]) a = Some c" by blast
  qed
  from s r i u p show ?thesis by blast
qed

theorem synchronized_copy_independent_witness:
  "read_cache bcd_store 4 = Some bcd_cache \<and>
   (\<exists>h' a'. create_synchronized_assignment_cache_at bcd_store 4 abc_tree = Some (h', a') \<and>
      take (length bcd_store) h' = bcd_store \<and>
      read_cache h' 4 = Some bcd_cache \<and>
      genome_property_identifiers_at h' 4 = genome_property_identifiers_at bcd_store 4 \<and>
      read_cache h' a' = Some (create_synchronized_assignment_cache bcd_cache abc_tree) \<and>
      (\<forall>x \<in> set (cache_addrs h' a'). length bcd_store \<le> x) \<and>
      (\<forall>x \<in> set (cache_addrs h' a'). \<forall>v. read_cache (h'[x := v]) 4 = Some bcd_cache) \<and>
      (\<forall>h''. take (length bcd_store) h'' = bcd_store \<longrightarrow> read_cache h'' 4 = Some bcd_cache))"
  using synchronized_copy_independent[OF bcd_store_cache, of abc_tree] bcd_store_cache
  by blast


end
